theory Spec2Isabelle
  imports Complex_Main "HOL-Library.AList" "HOL-Library.Sublist" "HOL-Library.Multiset"
begin

section \<open>Exceptions, effects and the world\<close>

text \<open>
  The program is a Python script (\<^verbatim>\<open>main.py\<close>). Its functions raise exceptions, call a
  remote decision service, sleep, print and touch the file system. In the model every
  function that can raise returns a sum whose left injection is the exception, and every
  effect is a change of an explicit world that is passed in and returned.

  Exceptions. \<^verbatim>\<open>OpenAIError\<close> stands for every exception class of the openai library
  (they all derive from \<^verbatim>\<open>openai.OpenAIError\<close>); it carries the classification the
  specification speaks of: a transient fault (connection error, timeout, rate limit,
  server error) or a permanent one (bad request, authentication, schema mismatch).
  The retry loop of the source never looks at that classification. \<^verbatim>\<open>OSError\<close> carries
  the error number and the file name; \<open>OtherException\<close> is any other subclass of
  \<^verbatim>\<open>Exception\<close>. Every exception of the model is caught by \<^verbatim>\<open>except Exception\<close>.
\<close>

datatype failure_class = Transient | Permanent

datatype errno = ENOENT | EEXIST | ENOTDIR | EISDIR

datatype exn =
    OpenAIError failure_class string
  | OSError errno string
  | JSONDecodeError
  | KeyError string
  | TypeError
  | ValueError string
  | OverflowError
  | AttributeError
  | CalledProcessError
  | Exception string
  | OtherException string

fun is_OpenAIError :: "exn \<Rightarrow> bool" where
  "is_OpenAIError (OpenAIError c m) = True"
| "is_OpenAIError e = False"

subsection \<open>What the program prints, and the trace of its effects\<close>

text \<open>
  Each \<^verbatim>\<open>print\<close> of the source is one constructor of \<open>printed\<close>, carrying the values
  the format string interpolates (the formatting itself is not modelled). The trace records,
  in order, the requests sent to the decision service, the calls of \<^verbatim>\<open>time.sleep\<close> and
  the lines printed.
\<close>

datatype printed =
    Retrying real
  | Reading string
  | Writing string
  | No_tool_call
  | Processed string
  | Initialized_git string
  | No_changes string
  | Created_commit string
  | Processing string
  | Error_processing string exn
  | Stopping
  | Continuing

datatype event = Request | Sleep real | Print printed

section \<open>Paths and the file system\<close>

subsection \<open>Strings\<close>

text \<open>
  \<^verbatim>\<open>s.split(c)\<close> of Python for a one-character separator: the pieces between the
  separators, empty pieces included, so the result is never empty.
\<close>

fun str_split :: "char \<Rightarrow> string \<Rightarrow> string list" where
  "str_split c [] = [[]]"
| "str_split c (x # xs) =
     (if x = c then [] # str_split c xs
      else (case str_split c xs of h # t \<Rightarrow> (x # h) # t | [] \<Rightarrow> [[x]]))"

subsection \<open>\<^verbatim>\<open>os.path\<close> on POSIX\<close>

text \<open>
  The functions of \<^verbatim>\<open>posixpath\<close> the program calls. \<open>p[:i]\<close> and \<open>p[i:]\<close> with
  \<open>i = p.rfind('/') + 1\<close> are the part up to and including the last separator and the
  part after it.
\<close>

definition sep :: char where
  "sep = CHR ''/''"

definition upto_last_sep :: "string \<Rightarrow> string" where
  "upto_last_sep p = rev (dropWhile (\<lambda>c. c \<noteq> sep) (rev p))"

definition after_last_sep :: "string \<Rightarrow> string" where
  "after_last_sep p = rev (takeWhile (\<lambda>c. c \<noteq> sep) (rev p))"

definition rstrip_sep :: "string \<Rightarrow> string" where
  "rstrip_sep p = rev (dropWhile (\<lambda>c. c = sep) (rev p))"

definition join :: "string \<Rightarrow> string \<Rightarrow> string" where
  "join a b =
     (if b \<noteq> [] \<and> hd b = sep then b
      else if a = [] \<or> last a = sep then a @ b
      else a @ [sep] @ b)"

definition path_split :: "string \<Rightarrow> string \<times> string" where
  "path_split p =
     (let head = upto_last_sep p; tail = after_last_sep p
      in (if head \<noteq> [] \<and> \<not> list_all (\<lambda>c. c = sep) head then rstrip_sep head else head,
          tail))"

definition dirname :: "string \<Rightarrow> string" where
  "dirname p =
     (let head = upto_last_sep p
      in if head \<noteq> [] \<and> \<not> list_all (\<lambda>c. c = sep) head then rstrip_sep head else head)"

definition basename :: "string \<Rightarrow> string" where
  "basename p = after_last_sep p"

subsection \<open>The file system\<close>

text \<open>
  A node is a regular file with its text, or a directory. A location is the list of names
  from the root; the root is always a directory. The nodes are kept as an association list,
  whose order is the order \<^verbatim>\<open>os.listdir\<close> reports (the operating system fixes no
  order). Symbolic links, permissions and text encodings are not modelled; the current
  directory never changes.
\<close>

datatype node = File string | Dir

record filesystem =
  nodes :: "(string list \<times> node) list"
  cwd :: "string list"

definition node_at :: "filesystem \<Rightarrow> string list \<Rightarrow> node option" where
  "node_at fs loc = (if loc = [] then Some Dir else map_of (nodes fs) loc)"

definition put :: "string list \<Rightarrow> node \<Rightarrow> filesystem \<Rightarrow> filesystem" where
  "put loc n fs = fs\<lparr>nodes := AList.update loc n (nodes fs)\<rparr>"

text \<open>
  Path resolution walks the components of a path. Every step starts in a directory that
  exists; the empty component and \<^verbatim>\<open>.\<close> stay, \<^verbatim>\<open>..\<close> goes to the parent (the root is
  its own parent), a name goes to that entry, which need not exist when it is the last
  component. The empty path does not resolve.
\<close>

fun walk :: "filesystem \<Rightarrow> string list \<Rightarrow> string list \<Rightarrow> errno + string list" where
  "walk fs cur [] = Inr cur"
| "walk fs cur (c # cs) =
     (case node_at fs cur of
        None \<Rightarrow> Inl ENOENT
      | Some (File t) \<Rightarrow> Inl ENOTDIR
      | Some Dir \<Rightarrow>
          walk fs (if c = [] \<or> c = ''.'' then cur
                   else if c = ''..'' then butlast cur
                   else cur @ [c]) cs)"

definition resolve :: "filesystem \<Rightarrow> string \<Rightarrow> errno + string list" where
  "resolve fs path =
     (if path = [] then Inl ENOENT
      else walk fs (if hd path = sep then [] else cwd fs) (str_split sep path))"

definition stat :: "filesystem \<Rightarrow> string \<Rightarrow> errno + node" where
  "stat fs path =
     (case resolve fs path of
        Inl e \<Rightarrow> Inl e
      | Inr loc \<Rightarrow> (case node_at fs loc of None \<Rightarrow> Inl ENOENT | Some n \<Rightarrow> Inr n))"

text \<open>\<^verbatim>\<open>os.path.exists\<close> and \<^verbatim>\<open>os.path.isdir\<close> answer False on every error of \<^verbatim>\<open>stat\<close>.\<close>

definition exists :: "filesystem \<Rightarrow> string \<Rightarrow> bool" where
  "exists fs path = (case stat fs path of Inl e \<Rightarrow> False | Inr n \<Rightarrow> True)"

definition isdir :: "filesystem \<Rightarrow> string \<Rightarrow> bool" where
  "isdir fs path = (case stat fs path of Inr Dir \<Rightarrow> True | _ \<Rightarrow> False)"

definition listdir :: "filesystem \<Rightarrow> string \<Rightarrow> exn + string list" where
  "listdir fs path =
     (case resolve fs path of
        Inl e \<Rightarrow> Inl (OSError e path)
      | Inr loc \<Rightarrow>
          (case node_at fs loc of
             None \<Rightarrow> Inl (OSError ENOENT path)
           | Some (File t) \<Rightarrow> Inl (OSError ENOTDIR path)
           | Some Dir \<Rightarrow>
               Inr (map (\<lambda>(l, n). last l)
                      (filter (\<lambda>(l, n). l \<noteq> [] \<and> butlast l = loc) (nodes fs)))))"

text \<open>
  \<^verbatim>\<open>os.mkdir\<close>: trailing separators are ignored; the entry must not exist and its parent
  must be a directory.
\<close>

definition mkdir :: "string \<Rightarrow> filesystem \<Rightarrow> exn + filesystem" where
  "mkdir path fs =
     (case resolve fs (if path \<noteq> [] \<and> list_all (\<lambda>c. c = sep) path then path
                       else rstrip_sep path) of
        Inl e \<Rightarrow> Inl (OSError e path)
      | Inr loc \<Rightarrow>
          (case node_at fs loc of
             Some n \<Rightarrow> Inl (OSError EEXIST path)
           | None \<Rightarrow>
               (if node_at fs (butlast loc) = Some Dir then Inr (put loc Dir fs)
                else Inl (OSError ENOENT path))))"

text \<open>
  \<^verbatim>\<open>open(path, 'w')\<close>: creates the file or truncates it, and gives the location opened.
  A path that ends in a separator is refused as a directory once its parent resolves.
\<close>

definition open_w :: "string \<Rightarrow> filesystem \<Rightarrow> exn + string list \<times> filesystem" where
  "open_w path fs =
     (if path \<noteq> [] \<and> last path = sep then
        (case resolve fs (if list_all (\<lambda>c. c = sep) path then path else rstrip_sep path) of
           Inl e \<Rightarrow> Inl (OSError e path)
         | Inr loc \<Rightarrow> Inl (OSError EISDIR path))
      else
        (case resolve fs path of
           Inl e \<Rightarrow> Inl (OSError e path)
         | Inr loc \<Rightarrow>
             (case node_at fs loc of
                Some Dir \<Rightarrow> Inl (OSError EISDIR path)
              | Some (File t) \<Rightarrow> Inr (loc, put loc (File []) fs)
              | None \<Rightarrow>
                  (if node_at fs (butlast loc) = Some Dir then Inr (loc, put loc (File []) fs)
                   else Inl (OSError ENOENT path)))))"

text \<open>
  \<^verbatim>\<open>open(path, 'r').read()\<close>: the text of the file. Python opens text files with
  universal newlines: on reading, a carriage return followed by a line feed, and a lone
  carriage return, both come back as one line feed. (On writing, POSIX changes nothing.)
\<close>

definition CR :: char where
  "CR = CHR 0x0D"

definition LF :: char where
  "LF = CHR 0x0A"

fun universal_newlines :: "string \<Rightarrow> string" where
  "universal_newlines [] = []"
| "universal_newlines [c] = (if c = CR then [LF] else [c])"
| "universal_newlines (c # d # cs) =
     (if c = CR then
        (if d = LF then LF # universal_newlines cs else LF # universal_newlines (d # cs))
      else c # universal_newlines (d # cs))"

definition open_r :: "string \<Rightarrow> filesystem \<Rightarrow> exn + string" where
  "open_r path fs =
     (case stat fs path of
        Inl e \<Rightarrow> Inl (OSError e path)
      | Inr Dir \<Rightarrow> Inl (OSError EISDIR path)
      | Inr (File t) \<Rightarrow> Inr (universal_newlines t))"

text \<open>
  \<^verbatim>\<open>str(e)\<close> of an exception. For an \<^verbatim>\<open>OSError\<close> it is
  \<^verbatim>\<open>[Errno n] message: 'filename'\<close> (the file name is quoted as Python quotes a string
  without quotes, backslashes or control characters). The program takes the text of an
  \<^verbatim>\<open>OSError\<close> (in the File Store and the listing) and of a \<^verbatim>\<open>ValueError\<close> (in the
  listing) only; for the exceptions that carry no text in the model a fixed text stands.
\<close>

fun strerror :: "errno \<Rightarrow> string" where
  "strerror ENOENT = ''[Errno 2] No such file or directory''"
| "strerror EEXIST = ''[Errno 17] File exists''"
| "strerror ENOTDIR = ''[Errno 20] Not a directory''"
| "strerror EISDIR = ''[Errno 21] Is a directory''"

fun str_exn :: "exn \<Rightarrow> string" where
  "str_exn (OSError e filename) = strerror e @ '': '' @ [CHR 0x27] @ filename @ [CHR 0x27]"
| "str_exn (OpenAIError c m) = m"
| "str_exn (KeyError k) = [CHR 0x27] @ k @ [CHR 0x27]"
| "str_exn (ValueError m) = m"
| "str_exn (Exception m) = m"
| "str_exn (OtherException m) = m"
| "str_exn JSONDecodeError = ''Expecting value''"
| "str_exn TypeError = ''TypeError''"
| "str_exn OverflowError = ''int too large to convert to float''"
| "str_exn AttributeError = ''AttributeError''"
| "str_exn CalledProcessError = ''CalledProcessError''"

text \<open>
  \<^verbatim>\<open>os.makedirs(name, exist_ok)\<close>, as the standard library writes it: make the parent
  first when it does not exist, then \<^verbatim>\<open>mkdir(name)\<close>; an error of that \<^verbatim>\<open>mkdir\<close> is
  swallowed when \<open>exist_ok\<close> holds and \<open>name\<close> is a directory. The file system comes back
  also when an exception is raised: directories made before the failure stay.
\<close>

definition makedirs_split :: "string \<Rightarrow> string \<times> string" where
  "makedirs_split name1 =
     (let (head, tail) = path_split name1
      in if tail = [] then path_split head else (head, tail))"

definition is_FileExistsError :: "exn \<Rightarrow> bool" where
  "is_FileExistsError e = (case e of OSError EEXIST f \<Rightarrow> True | _ \<Rightarrow> False)"

definition mkdir_exist_ok :: "string \<Rightarrow> bool \<Rightarrow> filesystem \<Rightarrow> (exn + unit) \<times> filesystem" where
  "mkdir_exist_ok name1 exist_ok fs =
     (case mkdir name1 fs of
        Inr fs1 \<Rightarrow> (Inr (), fs1)
      | Inl e \<Rightarrow> (if \<not> exist_ok \<or> \<not> isdir fs name1 then (Inl e, fs) else (Inr (), fs)))"

lemma path_split_length: "path_split p = (h, t) \<Longrightarrow> length h + length t \<le> length p"
proof -
  have a: "length (upto_last_sep p) + length (after_last_sep p) = length p"
    unfolding upto_last_sep_def after_last_sep_def
    by (metis length_append length_rev takeWhile_dropWhile_id add.commute)
  have b: "length (rstrip_sep x) \<le> length x" for x
    unfolding rstrip_sep_def by (metis length_dropWhile_le length_rev)
  assume "path_split p = (h, t)"
  then show ?thesis using a b[of "upto_last_sep p"]
    by (auto simp: path_split_def Let_def split: if_splits)
qed

lemma makedirs_split_shorter:
  assumes "makedirs_split name1 = (h, t)" "t \<noteq> []"
  shows "length h < length name1"
proof -
  obtain h0 t0 where s0: "path_split name1 = (h0, t0)" by (cases "path_split name1")
  show ?thesis
  proof (cases "t0 = []")
    case True
    then have "path_split h0 = (h, t)" using assms(1) s0 by (simp add: makedirs_split_def)
    then have "length h + length t \<le> length h0" by (rule path_split_length)
    moreover have "length h0 \<le> length name1" using path_split_length[OF s0] by simp
    ultimately show ?thesis using assms(2) by (cases t) auto
  next
    case False
    then have "h = h0" "t = t0" using assms(1) s0 by (auto simp: makedirs_split_def)
    then show ?thesis using path_split_length[OF s0] False by (cases t0) auto
  qed
qed

function makedirs :: "string \<Rightarrow> bool \<Rightarrow> filesystem \<Rightarrow> (exn + unit) \<times> filesystem" where
  "makedirs name1 exist_ok fs =
     (let head = fst (makedirs_split name1); tail = snd (makedirs_split name1)
      in if head \<noteq> [] \<and> tail \<noteq> [] \<and> \<not> exists fs head then
           (case makedirs head exist_ok fs of
              (Inl e, fs1) \<Rightarrow>
                (if is_FileExistsError e then
                   (if tail = ''.'' then (Inr (), fs1) else mkdir_exist_ok name1 exist_ok fs1)
                 else (Inl e, fs1))
            | (Inr u, fs1) \<Rightarrow>
                (if tail = ''.'' then (Inr (), fs1) else mkdir_exist_ok name1 exist_ok fs1))
         else mkdir_exist_ok name1 exist_ok fs)"
  by pat_completeness auto
termination
  by (relation "measure (\<lambda>(name1, exist_ok, fs). length name1)")
     (auto intro: makedirs_split_shorter[OF surjective_pairing])

declare makedirs.simps [simp del]

subsection \<open>File Store\<close>

text \<open>
  \<^verbatim>\<open>read_file_content\<close> and \<^verbatim>\<open>write_file_content\<close> catch every exception and return
  its text in a string. A value of a tool call's arguments is a JSON value: a string, or
  something else (\<open>JOther\<close> with the name of its Python type). Writing a value that is not
  a string fails inside \<^verbatim>\<open>file.write\<close>, after \<^verbatim>\<open>open\<close> has created or emptied the file.
\<close>

datatype jvalue = JStr string | JOther string

definition read_file_content :: "string \<Rightarrow> filesystem \<Rightarrow> string" where
  "read_file_content file_path fs =
     (case open_r file_path fs of
        Inr t \<Rightarrow> t
      | Inl e \<Rightarrow> ''Error reading file content: '' @ str_exn e)"

definition write_file_content :: "string \<Rightarrow> jvalue \<Rightarrow> filesystem \<Rightarrow> string \<times> filesystem" where
  "write_file_content file_path content fs =
     (case open_w file_path fs of
        Inl e \<Rightarrow> (''Error writing file content: '' @ str_exn e, fs)
      | Inr (loc, fs1) \<Rightarrow>
          (case content of
             JStr t \<Rightarrow> (''File written successfully.'', put loc (File t) fs1)
           | JOther ty \<Rightarrow>
               (''Error writing file content: write() argument must be str, not '' @ ty, fs1)))"

subsection \<open>The world\<close>

text \<open>
  The state the program runs in: the file system, the number of requests sent to the
  decision service so far, the number of values drawn from the random generator so far,
  and the trace. The decision service is a function of the number of earlier requests and
  of the transcript sent; the random generator is the sequence of the values
  \<^verbatim>\<open>random.uniform(0, 1)\<close> returns.
\<close>

record world =
  file_system :: filesystem
  api_calls :: nat
  draws :: nat
  trace :: "event list"

section \<open>Retry Policy\<close>

text \<open>
  \<^verbatim>\<open>exponential_backoff(attempt, max_delay=60.0)\<close> computes
  \<^verbatim>\<open>min(2 ** attempt + random.uniform(0, 1), max_delay)\<close>. The value drawn from the
  random generator is the argument \<open>jitter\<close>. Python floats are modelled as reals (rounding
  is not modelled); the one float effect kept is that \<^verbatim>\<open>2 ** attempt\<close> is an unbounded
  integer, and adding a float to an integer of \<open>2 ^ 1024\<close> or more raises
  \<^verbatim>\<open>OverflowError\<close>.
\<close>

definition exponential_backoff :: "nat \<Rightarrow> real \<Rightarrow> real \<Rightarrow> exn + real" where
  "exponential_backoff attempt jitter max_delay =
     (if 1024 \<le> attempt then Inl OverflowError
      else Inr (min (2 ^ attempt + jitter) max_delay))"

text \<open>
  \<^verbatim>\<open>retry_openai_request(func, *args, **kwargs)\<close>: \<open>func\<close> is the call with its
  arguments, a computation on the world that returns a value or raises. The loop
  \<^verbatim>\<open>for attempt in range(max_retries)\<close> is the recursion over the list of the attempt
  numbers; a loop that ends without returning makes the Python function return
  \<^verbatim>\<open>None\<close>. Any exception that is not an \<^verbatim>\<open>OpenAIError\<close> leaves the loop at once.
\<close>

definition max_retries :: nat where
  "max_retries = 5"

fun retry_attempts ::
  "(world \<Rightarrow> (exn + 'a) \<times> world) \<Rightarrow> (nat \<Rightarrow> real) \<Rightarrow> nat list \<Rightarrow> world
     \<Rightarrow> (exn + 'a option) \<times> world" where
  "retry_attempts func uniform [] w = (Inr None, w)"
| "retry_attempts func uniform (attempt # rest) w =
     (case func w of
        (Inr r, w1) \<Rightarrow> (Inr (Some r), w1)
      | (Inl e, w1) \<Rightarrow>
          (if is_OpenAIError e then
             (if attempt = max_retries - 1 then (Inl e, w1)
              else
                (case exponential_backoff attempt (uniform (draws w1)) 60 of
                   Inl e' \<Rightarrow> (Inl e', w1\<lparr>draws := Suc (draws w1)\<rparr>)
                 | Inr delay \<Rightarrow>
                     retry_attempts func uniform rest
                       (w1\<lparr>draws := Suc (draws w1),
                           trace := trace w1 @ [Print (Retrying delay), Sleep delay]\<rparr>)))
           else (Inl e, w1)))"

definition retry_openai_request ::
  "(world \<Rightarrow> (exn + 'a) \<times> world) \<Rightarrow> (nat \<Rightarrow> real) \<Rightarrow> world \<Rightarrow> (exn + 'a option) \<times> world" where
  "retry_openai_request func uniform w = retry_attempts func uniform [0..<max_retries] w"

section \<open>Agent Loop\<close>

text \<open>
  A tool call has an identifier, the name of the function and its arguments. The arguments
  arrive as a string; the model keeps what \<^verbatim>\<open>json.loads\<close> makes of it: it raises
  (\<open>Malformed\<close>), or gives a JSON value that is not an object, or an object, kept as the
  list of its items (a dictionary: no key twice). \<^verbatim>\<open>function_args[key]\<close> raises
  \<^verbatim>\<open>TypeError\<close> on a value that is not an object and \<^verbatim>\<open>KeyError\<close> on a missing key.
\<close>

datatype arguments = Malformed | NotObject | Object "(string \<times> jvalue) list"

record tool_call =
  call_id :: string
  function_name :: string
  function_arguments :: arguments

record assistant_message =
  message_content :: string
  tool_calls :: "tool_call list"

text \<open>
  The messages of the transcript. The two fixed prompts are constants (their text plays no
  part); the third message carries the base name of the artifact and its content.
\<close>

datatype message =
    System_Instructions
  | User_Example
  | User_Artifact string string
  | Assistant assistant_message
  | Tool string string string

type_synonym service = "nat \<Rightarrow> message list \<Rightarrow> exn + assistant_message"

text \<open>
  \<^verbatim>\<open>openai.chat.completions.create(messages=messages, ...)\<close>: one request to the
  decision service. The response is taken as its first choice's message; the model name,
  the catalogue of tools and the sampling parameters are the same in every request and are
  part of the service.
\<close>

definition chat_completions_create ::
  "service \<Rightarrow> message list \<Rightarrow> world \<Rightarrow> (exn + assistant_message) \<times> world" where
  "chat_completions_create service messages w =
     (service (api_calls w) messages,
      w\<lparr>api_calls := Suc (api_calls w), trace := trace w @ [Request]\<rparr>)"

definition json_loads :: "arguments \<Rightarrow> exn + arguments" where
  "json_loads a = (case a of Malformed \<Rightarrow> Inl JSONDecodeError | _ \<Rightarrow> Inr a)"

definition getitem :: "arguments \<Rightarrow> string \<Rightarrow> exn + jvalue" where
  "getitem function_args key =
     (case function_args of
        Object items \<Rightarrow>
          (case map_of items key of None \<Rightarrow> Inl (KeyError key) | Some v \<Rightarrow> Inr v)
      | _ \<Rightarrow> Inl TypeError)"

text \<open>The body of \<^verbatim>\<open>for tool_call in assistant_message.tool_calls\<close>.\<close>

definition dispatch ::
  "string \<Rightarrow> string \<Rightarrow> string \<Rightarrow> tool_call \<Rightarrow> message list \<Rightarrow> world
     \<Rightarrow> (exn + unit) \<times> message list \<times> world" where
  "dispatch artifact_path output_directory artifact_content tool_call messages w =
     (case json_loads (function_arguments tool_call) of
        Inl e \<Rightarrow> (Inl e, messages, w)
      | Inr function_args \<Rightarrow>
          (if function_name tool_call = ''read_file_content'' then
             (case getitem function_args ''file_path'' of
                Inl e \<Rightarrow> (Inl e, messages, w)
              | Inr v \<Rightarrow>
                  (if v = JStr (basename artifact_path) then
                     (Inr (),
                      messages @ [Tool (call_id tool_call) (function_name tool_call) artifact_content],
                      w)
                   else
                     (case v of
                        JOther ty \<Rightarrow> (Inl TypeError, messages, w)
                      | JStr file_path \<Rightarrow>
                          (let full_path = join output_directory file_path;
                               w1 = w\<lparr>trace := trace w @ [Print (Reading full_path)]\<rparr>;
                               file_content = read_file_content full_path (file_system w1)
                           in (Inr (),
                               messages @ [Tool (call_id tool_call) (function_name tool_call) file_content],
                               w1)))))
           else if function_name tool_call = ''write_file_content'' then
             (case getitem function_args ''file_path'' of
                Inl e \<Rightarrow> (Inl e, messages, w)
              | Inr (JOther ty) \<Rightarrow> (Inl TypeError, messages, w)
              | Inr (JStr file_path) \<Rightarrow>
                  (let full_path = join output_directory file_path
                   in (case makedirs (dirname full_path) True (file_system w) of
                         (Inl e, fs1) \<Rightarrow> (Inl e, messages, w\<lparr>file_system := fs1\<rparr>)
                       | (Inr u, fs1) \<Rightarrow>
                           (let w1 = w\<lparr>file_system := fs1, trace := trace w @ [Print (Writing full_path)]\<rparr>
                            in (case getitem function_args ''content'' of
                                  Inl e \<Rightarrow> (Inl e, messages, w1)
                                | Inr content \<Rightarrow>
                                    (let (response_msg, fs2) = write_file_content full_path content fs1
                                     in (Inr (),
                                         messages @ [Tool (call_id tool_call) (function_name tool_call) response_msg],
                                         w1\<lparr>file_system := fs2\<rparr>)))))))
           else (Inr (), messages, w)))"

fun dispatch_all ::
  "string \<Rightarrow> string \<Rightarrow> string \<Rightarrow> tool_call list \<Rightarrow> message list \<Rightarrow> world
     \<Rightarrow> (exn + unit) \<times> message list \<times> world" where
  "dispatch_all artifact_path output_directory artifact_content [] messages w =
     (Inr (), messages, w)"
| "dispatch_all artifact_path output_directory artifact_content (tool_call # rest) messages w =
     (case dispatch artifact_path output_directory artifact_content tool_call messages w of
        (Inl e, messages1, w1) \<Rightarrow> (Inl e, messages1, w1)
      | (Inr u, messages1, w1) \<Rightarrow>
          dispatch_all artifact_path output_directory artifact_content rest messages1 w1)"

text \<open>
  The loop \<^verbatim>\<open>while True\<close> of \<^verbatim>\<open>process_artifact\<close>. It may run forever, so the result
  is an option: \<open>None\<close> is the run that never returns. A returned run gives the exception
  raised or \<open>()\<close>, the transcript and the world. A response that is \<^verbatim>\<open>None\<close> has no
  attribute \<^verbatim>\<open>choices\<close>.
\<close>

partial_function (option) agent_loop ::
  "service \<Rightarrow> (nat \<Rightarrow> real) \<Rightarrow> string \<Rightarrow> string \<Rightarrow> string \<Rightarrow> message list \<Rightarrow> world
     \<Rightarrow> ((exn + unit) \<times> message list \<times> world) option" where
  "agent_loop service uniform artifact_path output_directory artifact_content messages w =
     (case retry_openai_request (chat_completions_create service messages) uniform w of
        (Inl e, w1) \<Rightarrow> Some (Inl e, messages, w1)
      | (Inr None, w1) \<Rightarrow> Some (Inl AttributeError, messages, w1)
      | (Inr (Some assistant_message), w1) \<Rightarrow>
          (if tool_calls assistant_message \<noteq> [] then
             (case dispatch_all artifact_path output_directory artifact_content
                     (tool_calls assistant_message) (messages @ [Assistant assistant_message]) w1 of
                (Inl e, messages2, w2) \<Rightarrow> Some (Inl e, messages2, w2)
              | (Inr u, messages2, w2) \<Rightarrow>
                  agent_loop service uniform artifact_path output_directory artifact_content
                    messages2 w2)
           else
             Some (Inr (), messages @ [Assistant assistant_message],
                   w1\<lparr>trace := trace w1 @ [Print No_tool_call]\<rparr>)))"

declare agent_loop.simps [code]

definition process_artifact ::
  "service \<Rightarrow> (nat \<Rightarrow> real) \<Rightarrow> string \<Rightarrow> string \<Rightarrow> world
     \<Rightarrow> ((exn + unit) \<times> message list \<times> world) option" where
  "process_artifact service uniform artifact_path output_directory w =
     (let artifact_content = read_file_content artifact_path (file_system w);
          messages = [System_Instructions, User_Example,
                      User_Artifact (basename artifact_path) artifact_content]
      in (case agent_loop service uniform artifact_path output_directory artifact_content
                 messages w of
            None \<Rightarrow> None
          | Some (Inl e, messages1, w1) \<Rightarrow> Some (Inl e, messages1, w1)
          | Some (Inr u, messages1, w1) \<Rightarrow>
              Some (Inr (), messages1,
                    w1\<lparr>trace := trace w1 @ [Print (Processed (basename artifact_path))]\<rparr>)))"

section \<open>Batch Driver\<close>

subsection \<open>Listing the artifacts\<close>

text \<open>
  A character of the model is a code point below 256. \<^verbatim>\<open>s.strip()\<close> drops the white
  space at both ends of a string; for \<^verbatim>\<open>str\<close> that is the characters 9 to 13, 28 to 32,
  133 and 160.

  \<^verbatim>\<open>int(s)\<close> for a string without underscores (the program passes the part of a file name
  before its first underscore): white space around the number is dropped (here the
  characters 28 to 31 do not count as white space), a sign may stand first, then come one
  or more decimal digits; anything else raises \<^verbatim>\<open>ValueError\<close>, and so do more than
  4300 digits (the limit of Python 3.11 on the conversion of strings to integers).
  \<open>str_nat\<close> is the decimal text of a number.
\<close>

definition is_space :: "char \<Rightarrow> bool" where
  "is_space c =
     (let n = (of_char c :: nat)
      in (9 \<le> n \<and> n \<le> 13) \<or> (28 \<le> n \<and> n \<le> 32) \<or> n = 133 \<or> n = 160)"

definition is_int_space :: "char \<Rightarrow> bool" where
  "is_int_space c =
     (let n = (of_char c :: nat) in (9 \<le> n \<and> n \<le> 13) \<or> n = 32 \<or> n = 133 \<or> n = 160)"

definition is_digit :: "char \<Rightarrow> bool" where
  "is_digit c = (let n = (of_char c :: nat) in 48 \<le> n \<and> n \<le> 57)"

definition strip_with :: "(char \<Rightarrow> bool) \<Rightarrow> string \<Rightarrow> string" where
  "strip_with space s = rev (dropWhile space (rev (dropWhile space s)))"

definition strip :: "string \<Rightarrow> string" where
  "strip s = strip_with is_space s"

definition digits_value :: "string \<Rightarrow> nat" where
  "digits_value ds = foldl (\<lambda>a c. 10 * a + (of_char c - 48)) 0 ds"

fun str_nat :: "nat \<Rightarrow> string" where
  "str_nat n =
     (if n < 10 then [char_of (48 + n)] else str_nat (n div 10) @ [char_of (48 + n mod 10)])"

declare str_nat.simps [simp del]

definition py_int :: "string \<Rightarrow> exn + int" where
  "py_int s =
     (let t = strip_with is_int_space s;
          negative = (t \<noteq> [] \<and> hd t = CHR ''-'');
          ds = (if t \<noteq> [] \<and> (hd t = CHR ''-'' \<or> hd t = CHR ''+'') then tl t else t)
      in if ds \<noteq> [] \<and> list_all is_digit ds then
           (if 4300 < length ds then
              Inl (ValueError (''Exceeds the limit (4300 digits) for integer string conversion: ''
                     @ ''value has '' @ str_nat (length ds) @ '' digits; use ''
                     @ ''sys.set_int_max_str_digits() to increase the limit''))
            else Inr (if negative then - int (digits_value ds) else int (digits_value ds)))
         else Inl (ValueError (''invalid literal for int() with base 10: ''
                                 @ [CHR 0x27] @ s @ [CHR 0x27])))"

text \<open>
  \<^verbatim>\<open>sorted(xs, key=f)\<close>: the keys are computed first, in the order of the list, and the
  first key that raises ends the call; then the list is sorted by key, and elements with
  equal keys keep their order.
\<close>

fun keys_of :: "('a \<Rightarrow> exn + 'k) \<Rightarrow> 'a list \<Rightarrow> exn + ('k \<times> 'a) list" where
  "keys_of f [] = Inr []"
| "keys_of f (x # xs) =
     (case f x of
        Inl e \<Rightarrow> Inl e
      | Inr k \<Rightarrow> (case keys_of f xs of Inl e \<Rightarrow> Inl e | Inr r \<Rightarrow> Inr ((k, x) # r)))"

definition sorted_key :: "('a \<Rightarrow> exn + int) \<Rightarrow> 'a list \<Rightarrow> exn + 'a list" where
  "sorted_key f xs =
     (case keys_of f xs of Inl e \<Rightarrow> Inl e | Inr kxs \<Rightarrow> Inr (map snd (sort_key fst kxs)))"

definition list_artifact_files :: "string \<Rightarrow> filesystem \<Rightarrow> string list" where
  "list_artifact_files directory fs =
     (case listdir fs directory of
        Inl e \<Rightarrow> [''Error listing artifact files: '' @ str_exn e]
      | Inr files \<Rightarrow>
          (case sorted_key (\<lambda>x. py_int (hd (str_split CHR ''_'' x))) files of
             Inl e \<Rightarrow> [''Error listing artifact files: '' @ str_exn e]
           | Inr r \<Rightarrow> r))"

subsection \<open>The output directory and the checkpoints\<close>

definition ensure_empty_directory :: "string \<Rightarrow> filesystem \<Rightarrow> exn + unit" where
  "ensure_empty_directory directory fs =
     (if exists fs directory then
        (case listdir fs directory of
           Inl e \<Rightarrow> Inl e
         | Inr names \<Rightarrow>
             (if names \<noteq> [] then
                Inl (Exception (''Output directory '' @ [CHR 0x27] @ directory @ [CHR 0x27]
                       @ '' is not empty. Please provide an empty directory.''))
              else Inr ()))
      else Inr ())"

text \<open>
  \<^verbatim>\<open>git\<close> is an external program: a parameter that takes the command line and the
  directory it runs in, changes the file system, and gives a completed process (or
  \<^verbatim>\<open>subprocess.run\<close> raises, as when the program or the directory is missing). With
  \<open>check\<close>, a return code other than zero raises \<^verbatim>\<open>CalledProcessError\<close>.
\<close>

record completed_process =
  returncode :: int
  stdout :: string

type_synonym subprocess =
  "string list \<Rightarrow> string \<Rightarrow> filesystem \<Rightarrow> (exn + completed_process) \<times> filesystem"

definition subprocess_run ::
  "subprocess \<Rightarrow> string list \<Rightarrow> string \<Rightarrow> bool \<Rightarrow> filesystem
     \<Rightarrow> (exn + completed_process) \<times> filesystem" where
  "subprocess_run run cmd directory check fs0 =
     (case run cmd directory fs0 of
        (Inl e, fs1) \<Rightarrow> (Inl e, fs1)
      | (Inr r, fs1) \<Rightarrow>
          (if check \<and> returncode r \<noteq> 0 then (Inl CalledProcessError, fs1) else (Inr r, fs1)))"

definition initialize_git_repo :: "subprocess \<Rightarrow> string \<Rightarrow> world \<Rightarrow> (exn + unit) \<times> world" where
  "initialize_git_repo run directory w =
     (case subprocess_run run [''git'', ''init''] directory True (file_system w) of
        (Inl e, fs1) \<Rightarrow> (Inl e, w\<lparr>file_system := fs1\<rparr>)
      | (Inr r, fs1) \<Rightarrow>
          (Inr (), w\<lparr>file_system := fs1, trace := trace w @ [Print (Initialized_git directory)]\<rparr>))"

definition create_git_commit ::
  "subprocess \<Rightarrow> string \<Rightarrow> string \<Rightarrow> string \<Rightarrow> world \<Rightarrow> (exn + unit) \<times> world" where
  "create_git_commit run directory artifact_name artifact_content w =
     (case subprocess_run run [''git'', ''status'', ''--porcelain''] directory False (file_system w) of
        (Inl e, fs1) \<Rightarrow> (Inl e, w\<lparr>file_system := fs1\<rparr>)
      | (Inr result, fs1) \<Rightarrow>
          (if strip (stdout result) = [] then
             (Inr (), w\<lparr>file_system := fs1, trace := trace w @ [Print (No_changes artifact_name)]\<rparr>)
           else
             (case subprocess_run run [''git'', ''add'', ''.''] directory True fs1 of
                (Inl e, fs2) \<Rightarrow> (Inl e, w\<lparr>file_system := fs2\<rparr>)
              | (Inr r2, fs2) \<Rightarrow>
                  (case subprocess_run run
                          [''git'', ''commit'', ''-m'', ''Processed artifact: '' @ artifact_name,
                           ''-m'', artifact_content] directory True fs2 of
                     (Inl e, fs3) \<Rightarrow> (Inl e, w\<lparr>file_system := fs3\<rparr>)
                   | (Inr r3, fs3) \<Rightarrow>
                       (Inr (), w\<lparr>file_system := fs3,
                                  trace := trace w @ [Print (Created_commit artifact_name)]\<rparr>)))))"

subsection \<open>\<^verbatim>\<open>main\<close>\<close>

text \<open>
  The \<^verbatim>\<open>try\<close> block of the loop over the artifacts: the Agent Loop, then the checkpoint.
\<close>

definition try_artifact ::
  "service \<Rightarrow> (nat \<Rightarrow> real) \<Rightarrow> subprocess \<Rightarrow> string \<Rightarrow> string \<Rightarrow> string \<Rightarrow> world
     \<Rightarrow> ((exn + unit) \<times> world) option" where
  "try_artifact service uniform run artifact_directory output_directory artifact_file w =
     (let artifact_path = join artifact_directory artifact_file
      in (case process_artifact service uniform artifact_path output_directory w of
            None \<Rightarrow> None
          | Some (Inl e, messages, w1) \<Rightarrow> Some (Inl e, w1)
          | Some (Inr u, messages, w1) \<Rightarrow>
              (let artifact_content = read_file_content artifact_path (file_system w1)
               in Some (create_git_commit run output_directory artifact_file artifact_content w1))))"

text \<open>
  The loop \<^verbatim>\<open>for artifact_file in list_artifact_files(artifact_directory)\<close>, with its
  \<^verbatim>\<open>except Exception\<close> handler: stop at the first failure, or go on when
  \<^verbatim>\<open>--ignore-failed\<close> is given.
\<close>

fun process_files ::
  "service \<Rightarrow> (nat \<Rightarrow> real) \<Rightarrow> subprocess \<Rightarrow> string \<Rightarrow> string \<Rightarrow> bool \<Rightarrow> string list \<Rightarrow> world
     \<Rightarrow> world option" where
  "process_files service uniform run artifact_directory output_directory ignore_failed [] w =
     Some w"
| "process_files service uniform run artifact_directory output_directory ignore_failed
     (artifact_file # rest) w =
     (case try_artifact service uniform run artifact_directory output_directory artifact_file
             (w\<lparr>trace := trace w @ [Print (Processing artifact_file)]\<rparr>) of
        None \<Rightarrow> None
      | Some (Inr u, w1) \<Rightarrow>
          process_files service uniform run artifact_directory output_directory ignore_failed
            rest w1
      | Some (Inl e, w1) \<Rightarrow>
          (if \<not> ignore_failed then
             Some (w1\<lparr>trace := trace w1 @ [Print (Error_processing artifact_file e), Print Stopping]\<rparr>)
           else
             process_files service uniform run artifact_directory output_directory ignore_failed
               rest
               (w1\<lparr>trace := trace w1 @ [Print (Error_processing artifact_file e), Print Continuing]\<rparr>)))"

text \<open>
  \<^verbatim>\<open>main\<close>, from the parsed command line on. An exception raised outside the loop ends
  the program.
\<close>

definition main ::
  "service \<Rightarrow> (nat \<Rightarrow> real) \<Rightarrow> subprocess \<Rightarrow> string \<Rightarrow> string \<Rightarrow> bool \<Rightarrow> world
     \<Rightarrow> ((exn + unit) \<times> world) option" where
  "main service uniform run artifact_directory output_directory ignore_failed w =
     (case ensure_empty_directory output_directory (file_system w) of
        Inl e \<Rightarrow> Some (Inl e, w)
      | Inr u \<Rightarrow>
          (case makedirs output_directory True (file_system w) of
             (Inl e, fs1) \<Rightarrow> Some (Inl e, w\<lparr>file_system := fs1\<rparr>)
           | (Inr u1, fs1) \<Rightarrow>
               (case initialize_git_repo run output_directory (w\<lparr>file_system := fs1\<rparr>) of
                  (Inl e, w2) \<Rightarrow> Some (Inl e, w2)
                | (Inr u2, w2) \<Rightarrow>
                    (case process_files service uniform run artifact_directory output_directory
                            ignore_failed (list_artifact_files artifact_directory (file_system w2)) w2 of
                       None \<Rightarrow> None
                     | Some w3 \<Rightarrow> Some (Inr (), w3)))))"

section \<open>Vocabulary of the statements, and concrete inputs\<close>

text \<open>The delays slept, read off a trace in order.\<close>

fun sleeps :: "event list \<Rightarrow> real list" where
  "sleeps [] = []"
| "sleeps (Sleep d # es) = d # sleeps es"
| "sleeps (e # es) = sleeps es"

text \<open>A world with an empty file system in which nothing has happened yet.\<close>

definition world0 :: world where
  "world0 = \<lparr>file_system = \<lparr>nodes = [], cwd = []\<rparr>, api_calls = 0, draws = 0, trace = []\<rparr>"

text \<open>A decision service that fails transiently twice and then answers with no tool call.\<close>

definition fails_twice :: service where
  "fails_twice n msgs =
     (if n < 2 then Inl (OpenAIError Transient ''timeout'')
      else Inr \<lparr>message_content = ''done'', tool_calls = []\<rparr>)"

text \<open>
  An output directory \<^verbatim>\<open>out\<close> that holds two files, one of them with the name of an
  artifact.
\<close>

definition disk1 :: filesystem where
  "disk1 = \<lparr>nodes = [([''out''], Dir), ([''out'', ''1_a.js''], File ''on disk''),
                      ([''out'', ''b.txt''], File ''bee'')], cwd = []\<rparr>"

definition read_call :: "string \<Rightarrow> tool_call" where
  "read_call p = \<lparr>call_id = ''call_1'', function_name = ''read_file_content'',
                   function_arguments = Object [(''file_path'', JStr p)]\<rparr>"

text \<open>
  A tool call whose name is not in the catalogue (\<^verbatim>\<open>list_directory_files\<close> is a function
  of the source that the catalogue does not offer), and a decision service that asks for
  it once and then answers with no tool call.
\<close>

definition unknown_call :: tool_call where
  "unknown_call = \<lparr>call_id = ''call_1'', function_name = ''list_directory_files'',
                    function_arguments = Object [(''directory'', JStr ''.'')]\<rparr>"

definition unknown_then_done :: service where
  "unknown_then_done n msgs =
     (if n = 0 then Inr \<lparr>message_content = [], tool_calls = [unknown_call]\<rparr>
      else Inr \<lparr>message_content = ''done'', tool_calls = []\<rparr>)"




text \<open>
  A write request, and a file system where the output directory \<^verbatim>\<open>out\<close> of the current
  directory \<^verbatim>\<open>/home\<close> holds the directory \<^verbatim>\<open>docs\<close>.
\<close>

definition write_call :: "string \<Rightarrow> string \<Rightarrow> tool_call" where
  "write_call p t = \<lparr>call_id = ''call_1'', function_name = ''write_file_content'',
                      function_arguments = Object [(''file_path'', JStr p), (''content'', JStr t)]\<rparr>"

definition disk2 :: filesystem where
  "disk2 = \<lparr>nodes = [([''home''], Dir), ([''home'', ''out''], Dir),
                      ([''home'', ''out'', ''docs''], Dir)], cwd = [''home'']\<rparr>"












section \<open>Properties of the Retry Policy\<close>

lemma sleeps_append: "sleeps (xs @ ys) = sleeps xs @ sleeps ys"
  by (induction xs rule: sleeps.induct) auto

lemma attempts_unfold: "[0..<max_retries] = [0, 1, 2, 3, 4]"
  by (simp add: max_retries_def upt_rec)





text \<open>
  Claim C3. When the decision service answers every request with a transient failure, the
  wrapped call sends exactly five requests and sleeps exactly four times, each delay
  between two requests and none after the fifth; it raises the failure of the fifth
  request as it is.
\<close>

theorem retry_budget_exhausted:
  assumes "\<forall>n msgs. \<exists>m. service n msgs = Inl (OpenAIError Transient m)"
  shows "\<exists>m. service (api_calls w + 4) messages = Inl (OpenAIError Transient m) \<and>
    retry_openai_request (chat_completions_create service messages) uniform w =
      (Inl (OpenAIError Transient m),
       w\<lparr>api_calls := api_calls w + 5, draws := draws w + 4,
          trace := trace w @
            [Request, Print (Retrying (min (1 + uniform (draws w)) 60)),
               Sleep (min (1 + uniform (draws w)) 60),
             Request, Print (Retrying (min (2 + uniform (draws w + 1)) 60)),
               Sleep (min (2 + uniform (draws w + 1)) 60),
             Request, Print (Retrying (min (4 + uniform (draws w + 2)) 60)),
               Sleep (min (4 + uniform (draws w + 2)) 60),
             Request, Print (Retrying (min (8 + uniform (draws w + 3)) 60)),
               Sleep (min (8 + uniform (draws w + 3)) 60),
             Request]\<rparr>)"
proof -
  obtain m0 where m0: "service (api_calls w) messages = Inl (OpenAIError Transient m0)"
    using assms by blast
  obtain m1 where m1: "service (Suc (api_calls w)) messages = Inl (OpenAIError Transient m1)"
    using assms by blast
  obtain m2 where m2:
    "service (Suc (Suc (api_calls w))) messages = Inl (OpenAIError Transient m2)"
    using assms by blast
  obtain m3 where m3:
    "service (Suc (Suc (Suc (api_calls w)))) messages = Inl (OpenAIError Transient m3)"
    using assms by blast
  obtain m4 where m4: "service (api_calls w + 4) messages = Inl (OpenAIError Transient m4)"
    using assms by blast
  have m4':
    "service (Suc (Suc (Suc (Suc (api_calls w))))) messages = Inl (OpenAIError Transient m4)"
    using m4 by (simp add: numeral_eq_Suc)
  show ?thesis
    apply (rule exI[of _ m4])
    apply (simp add: m4)
    unfolding retry_openai_request_def attempts_unfold
    apply (simp add: chat_completions_create_def
        exponential_backoff_def max_retries_def m0 m1 m2 m3 m4')
    apply (simp add: numeral_eq_Suc)
    done
qed

theorem retry_budget_exhausted_witness:
  "(\<forall>n msgs. \<exists>m.
      (\<lambda>n msgs. Inl (OpenAIError Transient ''timeout'') :: exn + assistant_message) n msgs =
        Inl (OpenAIError Transient m)) \<and>
   retry_openai_request
       (chat_completions_create (\<lambda>n msgs. Inl (OpenAIError Transient ''timeout'')) [])
       (\<lambda>n. 1 / 2) world0 =
     (Inl (OpenAIError Transient ''timeout''),
      world0\<lparr>api_calls := 5, draws := 4,
        trace := [Request, Print (Retrying (3 / 2)), Sleep (3 / 2),
                  Request, Print (Retrying (5 / 2)), Sleep (5 / 2),
                  Request, Print (Retrying (9 / 2)), Sleep (9 / 2),
                  Request, Print (Retrying (17 / 2)), Sleep (17 / 2),
                  Request]\<rparr>)"
  using retry_budget_exhausted
          [of "\<lambda>n msgs. Inl (OpenAIError Transient ''timeout'')" world0 "[]" "\<lambda>n. 1 / 2"]
  by (simp add: world0_def)

lemma backoff_bounds:
  assumes "0 \<le> j" "j \<le> 1"
  shows "min (2 ^ i) cap \<le> min (2 ^ i + j) cap \<and> min (2 ^ i + j) cap \<le> (cap :: real)"
  using assms by (simp add: min_def)

text \<open>
  The attempts from number \<open>a\<close> on: every failure that is retried draws one jitter value and
  sleeps once, and the delay slept after attempt \<open>a + i\<close> is the minimum of
  \<open>2 ^ (a + i)\<close> plus the jitter drawn and 60.
\<close>

lemma retry_attempts_delays:
  assumes "retry_attempts (chat_completions_create service messages) uniform [a..<5] w = (r, w')"
    and "a < 5"
  shows "draws w \<le> draws w' \<and> draws w' - draws w \<le> 4 - a \<and>
         api_calls w' = api_calls w + (draws w' - draws w) + 1 \<and>
         sleeps (trace w') =
           sleeps (trace w) @
             map (\<lambda>i. min (2 ^ (a + i) + uniform (draws w + i)) 60) [0..<draws w' - draws w]"
  using assms
proof (induction "5 - a" arbitrary: a w)
  case 0
  then show ?case by simp
next
  case (Suc n)
  let ?F = "chat_completions_create service messages"
  let ?w1 = "w\<lparr>api_calls := Suc (api_calls w), trace := trace w @ [Request]\<rparr>"
  have list: "[a..<5] = a # [Suc a..<5]" using Suc.prems(2) by (simp add: upt_conv_Cons)
  have run: "retry_attempts ?F uniform (a # [Suc a..<5]) w = (r, w')"
    using Suc.prems(1) list by simp
  show ?case
  proof (cases "service (api_calls w) messages")
    case (Inr m)
    then have "w' = ?w1" using run by (simp add: chat_completions_create_def)
    then show ?thesis by (simp add: sleeps_append)
  next
    case (Inl e)
    show ?thesis
    proof (cases "is_OpenAIError e \<and> a \<noteq> 4")
      case False
      then have "w' = ?w1" using run Inl
        by (auto simp: chat_completions_create_def max_retries_def split: if_splits)
      then show ?thesis by (simp add: sleeps_append)
    next
      case True
      let ?d = "min (2 ^ a + uniform (draws w)) 60"
      let ?w2 = "?w1\<lparr>draws := Suc (draws w),
                     trace := trace ?w1 @ [Print (Retrying ?d), Sleep ?d]\<rparr>"
      have a4: "Suc a < 5" using True Suc.prems(2) by simp
      have rec: "retry_attempts ?F uniform [Suc a..<5] ?w2 = (r, w')"
        using run Inl True Suc.prems(2)
        by (simp add: chat_completions_create_def max_retries_def exponential_backoff_def
              del: upt_Suc)
      have n: "n = 5 - Suc a" using Suc.hyps(2) by simp
      have ih: "draws ?w2 \<le> draws w' \<and> draws w' - draws ?w2 \<le> 4 - Suc a \<and>
         api_calls w' = api_calls ?w2 + (draws w' - draws ?w2) + 1 \<and>
         sleeps (trace w') =
           sleeps (trace ?w2) @
             map (\<lambda>i. min (2 ^ (Suc a + i) + uniform (draws ?w2 + i)) 60)
               [0..<draws w' - draws ?w2]"
        by (rule Suc.hyps(1)[OF n rec a4])
      have le: "Suc (draws w) \<le> draws w'" using ih by simp
      define k where "k = draws w' - Suc (draws w)"
      have dk: "draws w' - draws w = Suc k" and dk2: "draws w' - Suc (draws w) = k"
        using le k_def by simp_all
      have s2: "sleeps (trace ?w2) = sleeps (trace w) @ [?d]" by (simp add: sleeps_append)
      have m: "map (\<lambda>i. min (2 ^ (a + i) + uniform (draws w + i)) 60) [0..<Suc k] =
               ?d # map (\<lambda>i. min (2 ^ (Suc a + i) + uniform (Suc (draws w) + i)) 60) [0..<k]"
        by (simp add: map_upt_Suc del: upt_Suc)
      have c1: "draws w \<le> draws w'" using le by simp
      have "k \<le> 3 - a" using ih dk2 by simp
      then have c2: "draws w' - draws w \<le> 4 - a" using a4 dk by arith
      have c3: "api_calls w' = api_calls w + (draws w' - draws w) + 1" using ih dk dk2 by simp
      have c4: "sleeps (trace w') = sleeps (trace w) @
             map (\<lambda>i. min (2 ^ (a + i) + uniform (draws w + i)) 60) [0..<draws w' - draws w]"
        unfolding dk m using ih s2 dk2 by simp
      show ?thesis using c1 c2 c3 c4 by blast
    qed
  qed
qed

text \<open>
  Claim C4. In a call wrapped by the Retry Policy, with jitter values between 0 and 1:
  at most four delays are slept, one after each failed attempt that is retried (the
  requests sent are the delays plus one); the delay slept after attempt \<open>i\<close>, before
  attempt \<open>i + 1\<close>, is \<open>min (2 ^ i + j) 60\<close> for the jitter \<open>j\<close> drawn for it; and every
  delay lies between \<open>min (2 ^ i) 60\<close> and 60.
\<close>

theorem backoff_delay_formula:
  assumes "\<forall>n. 0 \<le> uniform n \<and> uniform n \<le> 1"
    and "retry_openai_request (chat_completions_create service messages) uniform w = (r, w')"
  shows "draws w' - draws w \<le> 4 \<and>
         api_calls w' = api_calls w + (draws w' - draws w) + 1 \<and>
         sleeps (trace w') =
           sleeps (trace w) @
             map (\<lambda>i. min (2 ^ i + uniform (draws w + i)) 60) [0..<draws w' - draws w] \<and>
         (\<forall>i < draws w' - draws w.
            exponential_backoff i (uniform (draws w + i)) 60 =
              Inr (min (2 ^ i + uniform (draws w + i)) 60) \<and>
            min (2 ^ i) 60 \<le> min (2 ^ i + uniform (draws w + i)) 60 \<and>
            min (2 ^ i + uniform (draws w + i)) 60 \<le> 60)"
proof -
  have "retry_attempts (chat_completions_create service messages) uniform [0..<5] w = (r, w')"
    using assms(2) by (simp add: retry_openai_request_def max_retries_def)
  from retry_attempts_delays[OF this]
  have run: "draws w' - draws w \<le> 4 \<and>
         api_calls w' = api_calls w + (draws w' - draws w) + 1 \<and>
         sleeps (trace w') =
           sleeps (trace w) @
             map (\<lambda>i. min (2 ^ i + uniform (draws w + i)) 60) [0..<draws w' - draws w]"
    by simp
  have bounds: "\<forall>i < draws w' - draws w.
            exponential_backoff i (uniform (draws w + i)) 60 =
              Inr (min (2 ^ i + uniform (draws w + i)) 60) \<and>
            min (2 ^ i) 60 \<le> min (2 ^ i + uniform (draws w + i)) 60 \<and>
            min (2 ^ i + uniform (draws w + i)) 60 \<le> 60"
    using assms(1) backoff_bounds run by (auto simp: exponential_backoff_def)
  show ?thesis using run bounds by blast
qed

text \<open>
  With the decision service \<open>fails_twice\<close> and every jitter value one half: three requests,
  and the delays 3/2 and 5/2.
\<close>

theorem backoff_delay_formula_witness:
  "(\<forall>n. (0 :: real) \<le> (\<lambda>n. 1 / 2) n \<and> (\<lambda>n. 1 / 2 :: real) n \<le> 1) \<and>
   retry_openai_request (chat_completions_create fails_twice []) (\<lambda>n. 1 / 2) world0 =
     (Inr (Some \<lparr>message_content = ''done'', tool_calls = []\<rparr>),
      world0\<lparr>api_calls := 3, draws := 2,
        trace := [Request, Print (Retrying (3 / 2)), Sleep (3 / 2),
                  Request, Print (Retrying (5 / 2)), Sleep (5 / 2), Request]\<rparr>) \<and>
   sleeps [Request, Print (Retrying (3 / 2)), Sleep (3 / 2),
           Request, Print (Retrying (5 / 2)), Sleep (5 / 2), Request] =
     [min (2 ^ 0 + 1 / 2) 60, min (2 ^ 1 + 1 / 2) 60]"
proof -
  have h: "\<forall>n. (0 :: real) \<le> (\<lambda>n. 1 / 2) n \<and> (\<lambda>n. 1 / 2 :: real) n \<le> 1" by simp
  have run: "retry_openai_request (chat_completions_create fails_twice []) (\<lambda>n. 1 / 2) world0 =
     (Inr (Some \<lparr>message_content = ''done'', tool_calls = []\<rparr>),
      world0\<lparr>api_calls := 3, draws := 2,
        trace := [Request, Print (Retrying (3 / 2)), Sleep (3 / 2),
                  Request, Print (Retrying (5 / 2)), Sleep (5 / 2), Request]\<rparr>)"
    unfolding retry_openai_request_def attempts_unfold
    by (simp add: chat_completions_create_def exponential_backoff_def max_retries_def
          world0_def fails_twice_def)
  show ?thesis
    using h run backoff_delay_formula [OF h run] by (simp add: world0_def)
qed

section \<open>Properties of the Agent Loop\<close>

text \<open>
  Claim C5. A read request whose \<^verbatim>\<open>file_path\<close> is the base name of the artifact is
  answered with the artifact content held in memory: the result is the same whatever the
  file system holds, and the world does not change (nothing is read, nothing is printed).
  For every other \<^verbatim>\<open>file_path\<close> the result is what \<^verbatim>\<open>read_file_content\<close> gives for
  the path joined to the output directory.
\<close>

theorem read_dispatch:
  assumes "function_name tool_call = ''read_file_content''"
    and "function_arguments tool_call = Object items"
    and "map_of items ''file_path'' = Some (JStr file_path)"
  shows "(file_path = basename artifact_path \<longrightarrow>
           (\<forall>fs'. dispatch artifact_path output_directory artifact_content tool_call messages
                    (w\<lparr>file_system := fs'\<rparr>) =
                  (Inr (),
                   messages @ [Tool (call_id tool_call) ''read_file_content'' artifact_content],
                   w\<lparr>file_system := fs'\<rparr>))) \<and>
         (file_path \<noteq> basename artifact_path \<longrightarrow>
           dispatch artifact_path output_directory artifact_content tool_call messages w =
             (Inr (),
              messages @ [Tool (call_id tool_call) ''read_file_content''
                            (read_file_content (join output_directory file_path) (file_system w))],
              w\<lparr>trace := trace w @ [Print (Reading (join output_directory file_path))]\<rparr>))"
  using assms by (simp add: dispatch_def json_loads_def getitem_def Let_def)

text \<open>
  The output directory holds a file with the name of the artifact and other content; the
  read of that name gives the content in memory, the read of \<^verbatim>\<open>b.txt\<close> the file's.
\<close>

theorem read_dispatch_witness:
  "dispatch ''in/1_a.js'' ''out'' ''in memory'' (read_call ''1_a.js'') []
       (world0\<lparr>file_system := disk1\<rparr>) =
     (Inr (), [Tool ''call_1'' ''read_file_content'' ''in memory''], world0\<lparr>file_system := disk1\<rparr>) \<and>
   dispatch ''in/1_a.js'' ''out'' ''in memory'' (read_call ''b.txt'') []
       (world0\<lparr>file_system := disk1\<rparr>) =
     (Inr (), [Tool ''call_1'' ''read_file_content'' ''bee''],
      world0\<lparr>file_system := disk1, trace := [Print (Reading ''out/b.txt'')]\<rparr>)"
proof -
  have a: "function_name (read_call p) = ''read_file_content''"
    and b: "function_arguments (read_call p) = Object [(''file_path'', JStr p)]"
    and c: "map_of [(''file_path'', JStr p)] ''file_path'' = Some (JStr p)" for p
    by (simp_all add: read_call_def)
  have base: "basename ''in/1_a.js'' = ''1_a.js''"
    by (simp add: basename_def after_last_sep_def sep_def)
  have rd: "read_file_content ''out/b.txt'' disk1 = ''bee''"
    by (simp add: read_file_content_def open_r_def stat_def resolve_def join_def sep_def
          node_at_def disk1_def CR_def LF_def)
  show ?thesis
    using read_dispatch [OF a b c, of "''1_a.js''" "''in/1_a.js''" "''out''" "''in memory''" "[]"
            "world0\<lparr>file_system := disk1\<rparr>"]
          read_dispatch [OF a b c, of "''b.txt''" "''in/1_a.js''" "''out''" "''in memory''" "[]"
            "world0\<lparr>file_system := disk1\<rparr>"]
    by (simp add: base rd read_call_def world0_def join_def sep_def)
qed

text \<open>
  For the two names of the catalogue, a dispatch that does not raise appends exactly one
  result message, with the identifier and the name of the call.
\<close>

lemma known_operation_gets_one_result:
  assumes "function_name tool_call = ''read_file_content'' \<or>
           function_name tool_call = ''write_file_content''"
    and "dispatch artifact_path output_directory artifact_content tool_call messages w =
           (Inr (), messages', w')"
  shows "\<exists>c. messages' = messages @ [Tool (call_id tool_call) (function_name tool_call) c]"
  using assms
  by (auto simp: dispatch_def Let_def split: sum.splits if_splits jvalue.splits prod.splits)

text \<open>
  Claim C1 fails on the code for a tool call whose name is neither
  \<^verbatim>\<open>read_file_content\<close> nor \<^verbatim>\<open>write_file_content\<close>: the chain of \<^verbatim>\<open>if\<close> and
  \<^verbatim>\<open>elif\<close> has no last branch, so no result message is appended for it, and the next
  request goes out with a transcript in which the call \<^verbatim>\<open>call_1\<close> has no result. The
  run below ends with the two assistant messages next to each other.
\<close>

theorem unknown_operation_gets_no_result:
  "agent_loop unknown_then_done (\<lambda>n. 0) ''in/1_a.js'' ''out'' ''text''
     [System_Instructions, User_Example, User_Artifact ''1_a.js'' ''text''] world0 =
   Some (Inr (),
         [System_Instructions, User_Example, User_Artifact ''1_a.js'' ''text'',
          Assistant \<lparr>message_content = [], tool_calls = [unknown_call]\<rparr>,
          Assistant \<lparr>message_content = ''done'', tool_calls = []\<rparr>],
         world0\<lparr>api_calls := 2, trace := [Request, Request, Print No_tool_call]\<rparr>)"
proof -
  have r0: "retry_openai_request (chat_completions_create unknown_then_done msgs) u
              (world0\<lparr>api_calls := 0, trace := []\<rparr>) =
            (Inr (Some \<lparr>message_content = [], tool_calls = [unknown_call]\<rparr>),
             world0\<lparr>api_calls := 1, trace := [Request]\<rparr>)" for msgs u
    unfolding retry_openai_request_def attempts_unfold
    by (simp add: chat_completions_create_def unknown_then_done_def world0_def)
  have r1: "retry_openai_request (chat_completions_create unknown_then_done msgs) u
              (world0\<lparr>api_calls := Suc 0, trace := [Request]\<rparr>) =
            (Inr (Some \<lparr>message_content = ''done'', tool_calls = []\<rparr>),
             world0\<lparr>api_calls := 2, trace := [Request, Request]\<rparr>)" for msgs u
    unfolding retry_openai_request_def attempts_unfold
    by (simp add: chat_completions_create_def unknown_then_done_def world0_def)
  have d: "dispatch p out c unknown_call msgs w = (Inr (), msgs, w)" for p out c msgs w
    by (simp add: dispatch_def unknown_call_def json_loads_def)
  have w0: "world0 = world0\<lparr>api_calls := 0, trace := []\<rparr>" by (simp add: world0_def)
  show ?thesis
    apply (subst w0)
    apply (subst agent_loop.simps)
    apply (simp add: r0 d)
    apply (subst agent_loop.simps)
    apply (simp add: r1)
    done
qed

section \<open>Properties of the Batch Driver\<close>

text \<open>
  Claim C7. When the output directory exists and its listing is not empty, \<^verbatim>\<open>main\<close>
  ends with the exception of \<^verbatim>\<open>ensure_empty_directory\<close> and the world is as it was:
  no artifact is processed, no request is sent, nothing is written.
\<close>

theorem main_refuses_nonempty_output:
  assumes "exists (file_system w) output_directory"
    and "listdir (file_system w) output_directory = Inr names"
    and "names \<noteq> []"
  shows "main service uniform run artifact_directory output_directory ignore_failed w =
           Some (Inl (Exception (''Output directory '' @ [CHR 0x27] @ output_directory @ [CHR 0x27]
                                   @ '' is not empty. Please provide an empty directory.'')), w)"
  using assms by (simp add: main_def ensure_empty_directory_def)

theorem main_refuses_nonempty_output_witness:
  "exists disk1 ''out'' \<and> listdir disk1 ''out'' = Inr [''1_a.js'', ''b.txt''] \<and>
   main fails_twice (\<lambda>n. 0) (\<lambda>cmd d f. (Inr \<lparr>returncode = 0, stdout = ''''\<rparr>, f)) ''in'' ''out'' False
       (world0\<lparr>file_system := disk1\<rparr>) =
     Some (Inl (Exception ''Output directory 'out' is not empty. Please provide an empty directory.''),
           world0\<lparr>file_system := disk1\<rparr>)"
proof -
  have e: "exists (file_system (world0\<lparr>file_system := disk1\<rparr>)) ''out''"
    by (simp add: exists_def stat_def resolve_def node_at_def disk1_def sep_def)
  have l: "listdir (file_system (world0\<lparr>file_system := disk1\<rparr>)) ''out'' = Inr [''1_a.js'', ''b.txt'']"
    by (simp add: listdir_def resolve_def node_at_def disk1_def sep_def)
  show ?thesis
    using e l main_refuses_nonempty_output [OF e l, of fails_twice "\<lambda>n. 0"
        "\<lambda>cmd d f. (Inr \<lparr>returncode = 0, stdout = ''''\<rparr>, f)" "''in''" False]
    by simp
qed

section \<open>Properties of paths and of the File Store\<close>

subsection \<open>Splitting and resolving paths\<close>

lemma str_split_not_Nil: "str_split c xs \<noteq> []"
  by (induction xs) (auto split: list.splits)

lemma str_split_append:
  "str_split c (xs @ c # ys) = str_split c xs @ str_split c ys"
proof (induction xs)
  case Nil
  then show ?case by simp
next
  case (Cons x xs)
  then show ?case
    using str_split_not_Nil[of c xs] by (auto split: list.splits)
qed

lemma walk_append:
  "walk fs cur (cs1 @ cs2) =
     (case walk fs cur cs1 of Inl e \<Rightarrow> Inl e | Inr p \<Rightarrow> walk fs p cs2)"
  by (induction cs1 arbitrary: cur) (auto split: option.splits node.splits)

lemma walk_prefix:
  "walk fs cur cs = Inr loc \<Longrightarrow> ''..'' \<notin> set cs \<Longrightarrow> prefix cur loc"
proof (induction cs arbitrary: cur)
  case Nil
  then show ?case by simp
next
  case (Cons c cs)
  from Cons.prems obtain nxt where
    nxt: "nxt = (if c = [] \<or> c = ''.'' then cur else cur @ [c])" and
    w: "walk fs nxt cs = Inr loc"
    by (auto split: option.splits node.splits if_splits)
  have "prefix nxt loc" using Cons.IH[OF w] Cons.prems(2) by simp
  moreover have "prefix cur nxt" using nxt by simp
  ultimately show ?case using prefix_order.trans by blast
qed

lemma join_relative:
  "file_path = [] \<or> hd file_path \<noteq> sep \<Longrightarrow>
   join output_directory file_path =
     (if output_directory = [] \<or> last output_directory = sep then output_directory @ file_path
      else output_directory @ [sep] @ file_path)"
  by (auto simp: join_def)

lemma join_absolute:
  "file_path \<noteq> [] \<Longrightarrow> hd file_path = sep \<Longrightarrow> join output_directory file_path = file_path"
  by (simp add: join_def)

lemma resolve_join_under:
  assumes rel: "file_path = [] \<or> hd file_path \<noteq> sep"
    and nodots: "''..'' \<notin> set (str_split sep file_path)"
    and rootdir: "resolve fs output_directory = Inr rootdir"
    and loc: "resolve fs (join output_directory file_path) = Inr loc"
  shows "prefix rootdir loc"
proof -
  have ne: "output_directory \<noteq> []" using rootdir by (auto simp: resolve_def)
  let ?start = "if hd output_directory = sep then [] else cwd fs"
  have r: "walk fs ?start (str_split sep output_directory) = Inr rootdir"
    using rootdir ne by (simp add: resolve_def)
  show ?thesis
  proof (cases "last output_directory = sep")
    case False
    then have j: "join output_directory file_path = output_directory @ sep # file_path"
      using rel ne by (auto simp: join_def)
    have hdj: "hd (output_directory @ sep # file_path) = hd output_directory" using ne by simp
    have "walk fs ?start (str_split sep output_directory @ str_split sep file_path) = Inr loc"
      using loc unfolding j by (simp add: resolve_def hdj str_split_append)
    then have "walk fs rootdir (str_split sep file_path) = Inr loc"
      using r by (simp add: walk_append)
    then show ?thesis using nodots by (rule walk_prefix)
  next
    case True
    then obtain base where base: "output_directory = base @ [sep]"
      using ne by (metis append_butlast_last_id)
    have j: "join output_directory file_path = base @ sep # file_path"
      using rel base by (auto simp: join_def)
    have hdj: "hd (base @ sep # file_path) = hd output_directory"
      using base by (cases base) auto
    have "walk fs ?start (str_split sep base @ [[]]) = Inr rootdir"
      using r base by (simp add: str_split_append)
    then obtain p where p: "walk fs ?start (str_split sep base) = Inr p"
      and p2: "walk fs p [[]] = Inr rootdir"
      by (auto simp: walk_append split: sum.splits)
    have pr: "p = rootdir" using p2 by (auto split: option.splits node.splits)
    have "walk fs ?start (str_split sep base @ str_split sep file_path) = Inr loc"
      using loc unfolding j by (simp add: resolve_def hdj str_split_append)
    then have "walk fs rootdir (str_split sep file_path) = Inr loc"
      using p pr by (simp add: walk_append)
    then show ?thesis using nodots by (rule walk_prefix)
  qed
qed


subsection \<open>Writing, then reading\<close>








subsection \<open>Separators at the end of a path\<close>

lemma str_split_no_sep: "c \<notin> set xs \<Longrightarrow> str_split c xs = [xs]"
  by (induction xs) auto

lemma str_split_replicate: "str_split c (replicate k c) = replicate (Suc k) []"
  by (induction k) auto

lemma str_split_trailing:
  "str_split c (x @ replicate k c) = str_split c x @ replicate k []"
proof (cases k)
  case 0
  then show ?thesis by simp
next
  case (Suc j)
  have "x @ replicate (Suc j) c = x @ c # replicate j c" by simp
  then show ?thesis unfolding Suc
    by (simp only: str_split_append str_split_replicate)
qed

lemma walk_empties_dir:
  "node_at fs cur = Some Dir \<Longrightarrow> walk fs cur (replicate k []) = Inr cur"
  by (induction k) auto

lemma walk_empties_result:
  "walk fs cur (replicate k []) = Inr l \<Longrightarrow> l = cur"
  by (induction k) (auto split: option.splits node.splits)

lemma rstrip_decomp: "\<exists>k. x = rstrip_sep x @ replicate k sep"
proof -
  let ?P = "\<lambda>c. c = sep"
  have "rev x = takeWhile ?P (rev x) @ dropWhile ?P (rev x)" by simp
  then have "x = rev (dropWhile ?P (rev x)) @ rev (takeWhile ?P (rev x))"
    by (metis rev_append rev_rev_ident)
  moreover have "takeWhile ?P (rev x) = replicate (length (takeWhile ?P (rev x))) sep"
    by (metis (mono_tags, lifting) replicate_eqI set_takeWhileD)
  ultimately show ?thesis unfolding rstrip_sep_def by (metis rev_replicate)
qed

lemma rstrip_last: "rstrip_sep x \<noteq> [] \<Longrightarrow> last (rstrip_sep x) \<noteq> sep"
  unfolding rstrip_sep_def
  by (metis (mono_tags, lifting) hd_dropWhile last_rev rev_is_Nil_conv)

lemma rstrip_Nil: "rstrip_sep x = [] \<longleftrightarrow> list_all (\<lambda>c. c = sep) x"
  unfolding rstrip_sep_def by (auto simp: list_all_iff)







subsection \<open>\<^verbatim>\<open>makedirs\<close> on a directory that exists\<close>

lemma exists_iff: "exists fs p \<longleftrightarrow> (\<exists>l n. resolve fs p = Inr l \<and> node_at fs l = Some n)"
  by (auto simp: exists_def stat_def split: sum.splits option.splits)

lemma isdir_iff: "isdir fs p \<longleftrightarrow> (\<exists>l. resolve fs p = Inr l \<and> node_at fs l = Some Dir)"
  by (auto simp: isdir_def stat_def split: sum.splits option.splits node.splits)

lemma isdir_exists: "isdir fs p \<Longrightarrow> exists fs p"
  by (auto simp: isdir_iff exists_iff)

lemma resolve_trailing:
  assumes "x \<noteq> []" "resolve fs (x @ replicate k sep) = Inr l"
  shows "resolve fs x = Inr l"
proof -
  have hd: "hd (x @ replicate k sep) = hd x" using assms(1) by simp
  from assms have "walk fs (if hd x = sep then [] else cwd fs)
                     (str_split sep x @ replicate k []) = Inr l"
    by (simp add: resolve_def hd str_split_trailing)
  then obtain p where p: "walk fs (if hd x = sep then [] else cwd fs) (str_split sep x) = Inr p"
    and q: "walk fs p (replicate k []) = Inr l"
    by (auto simp: walk_append split: sum.splits)
  from q have "l = p" by (rule walk_empties_result)
  then show ?thesis using p assms(1) by (simp add: resolve_def)
qed

lemma resolve_all_seps:
  assumes "p \<noteq> []" "list_all (\<lambda>c. c = sep) p"
  shows "resolve fs p = Inr []"
proof -
  have p: "p = replicate (length p) sep"
    using assms(2) by (metis (mono_tags, lifting) list_all_iff replicate_eqI)
  have h: "hd p = sep" using assms by (cases p) auto
  have "str_split sep p = replicate (Suc (length p)) []"
    by (subst p) (simp only: str_split_replicate)
  moreover have "node_at fs [] = Some Dir" by (simp add: node_at_def)
  ultimately show ?thesis using assms(1) h walk_empties_dir[of fs "[]" "Suc (length p)"]
    by (simp add: resolve_def)
qed

lemma mkdir_existing:
  assumes "exists fs p"
  shows "\<exists>e. mkdir p fs = Inl e"
proof -
  from assms obtain l n where r: "resolve fs p = Inr l" and n: "node_at fs l = Some n"
    by (auto simp: exists_iff)
  have ne: "p \<noteq> []" using r by (auto simp: resolve_def)
  show ?thesis
  proof (cases "list_all (\<lambda>c. c = sep) p")
    case True
    then show ?thesis using r n ne by (simp add: mkdir_def)
  next
    case False
    then have rs: "rstrip_sep p \<noteq> []" by (simp add: rstrip_Nil)
    obtain k where k: "p = rstrip_sep p @ replicate k sep" using rstrip_decomp by blast
    have "resolve fs (rstrip_sep p) = Inr l"
      using resolve_trailing[OF rs, of fs k l] r k by simp
    then show ?thesis using n False by (simp add: mkdir_def)
  qed
qed

lemma upto_last_sep_last: "upto_last_sep q \<noteq> [] \<Longrightarrow> last (upto_last_sep q) = sep"
  unfolding upto_last_sep_def
  by (metis (mono_tags, lifting) hd_dropWhile last_rev rev_is_Nil_conv)

lemma after_last_sep_no_sep: "sep \<notin> set (after_last_sep q)"
  unfolding after_last_sep_def by (auto dest: set_takeWhileD)

lemma upto_after: "upto_last_sep q @ after_last_sep q = q"
  unfolding upto_last_sep_def after_last_sep_def
  by (metis rev_append rev_rev_ident takeWhile_dropWhile_id)

lemma path_split_head_isdir:
  assumes "\<exists>l. resolve fs q = Inr l" "path_split q = (h, t)" "h \<noteq> []"
  shows "isdir fs h"
proof -
  let ?h' = "upto_last_sep q"
  have t: "t = after_last_sep q" and
    h: "h = (if ?h' \<noteq> [] \<and> \<not> list_all (\<lambda>c. c = sep) ?h' then rstrip_sep ?h' else ?h')"
    using assms(2) by (auto simp: path_split_def Let_def)
  have h'ne: "?h' \<noteq> []" using assms(3) h by (auto split: if_splits)
  show ?thesis
  proof (cases "list_all (\<lambda>c. c = sep) ?h'")
    case True
    then have "h = ?h'" using h by simp
    then show ?thesis using resolve_all_seps[OF h'ne True, of fs]
      by (simp add: isdir_iff node_at_def)
  next
    case False
    then have hr: "h = rstrip_sep ?h'" using h h'ne by simp
    obtain k where k: "?h' = h @ replicate k sep" using rstrip_decomp hr by blast
    have "last ?h' = sep" using h'ne by (rule upto_last_sep_last)
    moreover have "last h \<noteq> sep" using rstrip_last assms(3) hr by blast
    ultimately have "k \<noteq> 0" using k by (metis append_Nil2 replicate_0)
    then obtain j where j: "k = Suc j" by (cases k) auto
    have rj: "replicate (Suc j) sep = replicate j sep @ [sep]"
      by (simp add: replicate_append_same)
    have "upto_last_sep q @ t = (h @ replicate j sep) @ sep # t"
      by (simp add: k j replicate_append_same)
    then have q: "q = (h @ replicate j sep) @ sep # t"
      by (simp add: t upto_after)
    have hdq: "hd q = hd h" using q assms(3) by simp
    let ?start = "if hd h = sep then [] else cwd fs"
    from assms(1) obtain l where l: "resolve fs q = Inr l" by blast
    have tn: "sep \<notin> set t" unfolding t by (rule after_last_sep_no_sep)
    have "str_split sep ((h @ replicate j sep) @ sep # t) =
            str_split sep (h @ replicate j sep) @ str_split sep t"
      by (rule str_split_append)
    also have "str_split sep (h @ replicate j sep) = str_split sep h @ replicate j []"
      by (rule str_split_trailing)
    also have "str_split sep t = [t]" using tn by (rule str_split_no_sep)
    finally have st: "str_split sep q = (str_split sep h @ replicate j []) @ [t]"
      unfolding q[symmetric] .
    have "q \<noteq> []" using q by simp
    then have "walk fs ?start ((str_split sep h @ replicate j []) @ [t]) = Inr l"
      using l hdq st by (simp add: resolve_def)
    then obtain p where p: "walk fs ?start (str_split sep h @ replicate j []) = Inr p"
      and pd: "node_at fs p = Some Dir"
      by (subst (asm) walk_append) (auto split: sum.splits option.splits node.splits)
    from p obtain p0 where p0: "walk fs ?start (str_split sep h) = Inr p0"
      and e: "walk fs p0 (replicate j []) = Inr p"
      by (auto simp: walk_append split: sum.splits)
    have "p = p0" using e by (rule walk_empties_result)
    then show ?thesis using p0 pd assms(3) by (simp add: isdir_iff resolve_def)
  qed
qed

lemma exists_head:
  assumes "exists fs p" "makedirs_split p = (h, t)" "h \<noteq> []"
  shows "exists fs h"
proof -
  obtain h0 t0 where s0: "path_split p = (h0, t0)" by (cases "path_split p")
  from assms(1) have r: "\<exists>l. resolve fs p = Inr l" by (auto simp: exists_iff)
  show ?thesis
  proof (cases "t0 = []")
    case False
    then have "h = h0" using assms(2) s0 by (simp add: makedirs_split_def)
    then show ?thesis using path_split_head_isdir[OF r s0] assms(3) isdir_exists by simp
  next
    case True
    then have s1: "path_split h0 = (h, t)" using assms(2) s0 by (simp add: makedirs_split_def)
    have "h0 \<noteq> []"
    proof
      assume "h0 = []"
      then have "h = []" using s1
        by (simp add: path_split_def upto_last_sep_def Let_def)
      then show False using assms(3) by simp
    qed
    then have "isdir fs h0" using path_split_head_isdir[OF r s0] by simp
    then have "\<exists>l. resolve fs h0 = Inr l" by (auto simp: isdir_iff)
    then show ?thesis using path_split_head_isdir[OF _ s1 assms(3)] isdir_exists by simp
  qed
qed

lemma makedirs_existing_dir:
  assumes "isdir fs p"
  shows "makedirs p True fs = (Inr (), fs)"
proof -
  have ex: "exists fs p" using assms by (rule isdir_exists)
  obtain e where e: "mkdir p fs = Inl e" using mkdir_existing[OF ex] by blast
  have m: "mkdir_exist_ok p True fs = (Inr (), fs)"
    using e assms by (simp add: mkdir_exist_ok_def)
  have c: "(fst (makedirs_split p) \<noteq> [] \<and> snd (makedirs_split p) \<noteq> [] \<and>
            \<not> exists fs (fst (makedirs_split p))) = False"
    using exists_head[OF ex surjective_pairing] by blast
  show ?thesis by (subst makedirs.simps) (simp only: Let_def c if_False m)
qed

subsection \<open>\<^verbatim>\<open>makedirs\<close> along a path of plain names\<close>











lemma dispatch_write:
  assumes "function_name tool_call = ''write_file_content''"
    and "function_arguments tool_call = Object items"
    and "map_of items ''file_path'' = Some (JStr file_path)"
    and "map_of items ''content'' = Some v"
  shows "dispatch artifact_path output_directory artifact_content tool_call messages w =
     (case makedirs (dirname (join output_directory file_path)) True (file_system w) of
        (Inl e, fs1) \<Rightarrow> (Inl e, messages, w\<lparr>file_system := fs1\<rparr>)
      | (Inr u, fs1) \<Rightarrow>
          (case write_file_content (join output_directory file_path) v fs1 of
             (response_msg, fs2) \<Rightarrow>
               (Inr (),
                messages @ [Tool (call_id tool_call) ''write_file_content'' response_msg],
                w\<lparr>file_system := fs2,
                   trace := trace w @ [Print (Writing (join output_directory file_path))]\<rparr>)))"
  using assms
  by (auto simp: dispatch_def json_loads_def getitem_def Let_def split: sum.splits prod.splits)



section \<open>Round trip of the File Store\<close>






section \<open>Where the dispatched path points\<close>

text \<open>
  Claim C10, as amended. For an absolute \<^verbatim>\<open>file_path\<close> the joined path is
  \<^verbatim>\<open>file_path\<close> itself, whatever the output directory. For a relative
  \<^verbatim>\<open>file_path\<close> the joined path is the output directory, a separator (unless the output
  directory is empty or ends in one) and \<^verbatim>\<open>file_path\<close>; when \<^verbatim>\<open>file_path\<close> has no
  component \<^verbatim>\<open>..\<close>, the location the joined path resolves to lies under the location of
  the output directory. The write dispatch hands that joined path to \<^verbatim>\<open>makedirs\<close> (its
  directory part) and to \<^verbatim>\<open>write_file_content\<close>.
\<close>

theorem dispatched_path_confinement:
  "(file_path \<noteq> [] \<and> hd file_path = sep \<longrightarrow>
      join output_directory file_path = file_path \<and>
      resolve fs (join output_directory file_path) = resolve fs file_path) \<and>
   (file_path = [] \<or> hd file_path \<noteq> sep \<longrightarrow>
      join output_directory file_path =
        (if output_directory = [] \<or> last output_directory = sep
         then output_directory @ file_path
         else output_directory @ [sep] @ file_path)) \<and>
   ((file_path = [] \<or> hd file_path \<noteq> sep) \<and> ''..'' \<notin> set (str_split sep file_path) \<and>
    resolve fs output_directory = Inr rootdir \<and>
    resolve fs (join output_directory file_path) = Inr loc \<longrightarrow>
      prefix rootdir loc) \<and>
   (function_name tool_call = ''write_file_content'' \<and>
    function_arguments tool_call = Object items \<and>
    map_of items ''file_path'' = Some (JStr file_path) \<and>
    map_of items ''content'' = Some v \<longrightarrow>
      dispatch artifact_path output_directory artifact_content tool_call messages w =
        (case makedirs (dirname (join output_directory file_path)) True (file_system w) of
           (Inl e, fs1) \<Rightarrow> (Inl e, messages, w\<lparr>file_system := fs1\<rparr>)
         | (Inr u, fs1) \<Rightarrow>
             (case write_file_content (join output_directory file_path) v fs1 of
                (response_msg, fs2) \<Rightarrow>
                  (Inr (),
                   messages @ [Tool (call_id tool_call) ''write_file_content'' response_msg],
                   w\<lparr>file_system := fs2,
                      trace := trace w @ [Print (Writing (join output_directory file_path))]\<rparr>))))"
proof (intro conjI impI)
  assume a: "file_path \<noteq> [] \<and> hd file_path = sep"
  then show "join output_directory file_path = file_path" by (simp add: join_absolute)
  then show "resolve fs (join output_directory file_path) = resolve fs file_path" by simp
next
  assume "file_path = [] \<or> hd file_path \<noteq> sep"
  then show "join output_directory file_path =
        (if output_directory = [] \<or> last output_directory = sep
         then output_directory @ file_path
         else output_directory @ [sep] @ file_path)"
    by (rule join_relative)
next
  assume "(file_path = [] \<or> hd file_path \<noteq> sep) \<and> ''..'' \<notin> set (str_split sep file_path) \<and>
    resolve fs output_directory = Inr rootdir \<and>
    resolve fs (join output_directory file_path) = Inr loc"
  then show "prefix rootdir loc" using resolve_join_under by blast
next
  assume "function_name tool_call = ''write_file_content'' \<and>
    function_arguments tool_call = Object items \<and>
    map_of items ''file_path'' = Some (JStr file_path) \<and>
    map_of items ''content'' = Some v"
  then show "dispatch artifact_path output_directory artifact_content tool_call messages w =
        (case makedirs (dirname (join output_directory file_path)) True (file_system w) of
           (Inl e, fs1) \<Rightarrow> (Inl e, messages, w\<lparr>file_system := fs1\<rparr>)
         | (Inr u, fs1) \<Rightarrow>
             (case write_file_content (join output_directory file_path) v fs1 of
                (response_msg, fs2) \<Rightarrow>
                  (Inr (),
                   messages @ [Tool (call_id tool_call) ''write_file_content'' response_msg],
                   w\<lparr>file_system := fs2,
                      trace := trace w @ [Print (Writing (join output_directory file_path))]\<rparr>)))"
    using dispatch_write by blast
qed

text \<open>
  An absolute path is kept as it is; \<^verbatim>\<open>docs/a.txt\<close> is written under \<^verbatim>\<open>/home/out\<close>.
\<close>

theorem dispatched_path_confinement_witness:
  "join ''out'' ''/etc/passwd'' = ''/etc/passwd'' \<and>
   join ''out'' ''docs/a.txt'' = ''out/docs/a.txt'' \<and>
   resolve disk2 ''out'' = Inr [''home'', ''out''] \<and>
   resolve disk2 (join ''out'' ''docs/a.txt'') = Inr [''home'', ''out'', ''docs'', ''a.txt''] \<and>
   prefix [''home'', ''out''] [''home'', ''out'', ''docs'', ''a.txt''] \<and>
   dispatch ''in/1_a.js'' ''out'' ''text'' (write_call ''docs/a.txt'' ''x'') []
       (world0\<lparr>file_system := disk2\<rparr>) =
     (Inr (), [Tool ''call_1'' ''write_file_content'' ''File written successfully.''],
      world0\<lparr>file_system :=
               disk2\<lparr>nodes := nodes disk2 @ [([''home'', ''out'', ''docs'', ''a.txt''], File ''x'')]\<rparr>,
             trace := [Print (Writing ''out/docs/a.txt'')]\<rparr>)"
proof -
  have j: "join ''out'' ''docs/a.txt'' = ''out/docs/a.txt''" by (simp add: join_def sep_def)
  have dn: "dirname ''out/docs/a.txt'' = ''out/docs''"
    by (simp add: dirname_def upto_last_sep_def rstrip_sep_def sep_def)
  have md: "makedirs ''out/docs'' True disk2 = (Inr (), disk2)"
    by (rule makedirs_existing_dir)
       (simp add: isdir_def stat_def resolve_def node_at_def disk2_def sep_def)
  have r1: "resolve disk2 ''out'' = Inr [''home'', ''out'']"
    by (simp add: resolve_def node_at_def disk2_def sep_def)
  have r2: "resolve disk2 ''out/docs/a.txt'' = Inr [''home'', ''out'', ''docs'', ''a.txt'']"
    by (simp add: resolve_def node_at_def disk2_def sep_def)
  have wr: "write_file_content ''out/docs/a.txt'' (JStr ''x'') disk2 =
              (''File written successfully.'',
               disk2\<lparr>nodes := nodes disk2 @ [([''home'', ''out'', ''docs'', ''a.txt''], File ''x'')]\<rparr>)"
    by code_simp
  have h1: "''/etc/passwd'' \<noteq> [] \<and> hd ''/etc/passwd'' = sep" by (simp add: sep_def)
  have h2: "''docs/a.txt'' = [] \<or> hd ''docs/a.txt'' \<noteq> sep" by (simp add: sep_def)
  have h3: "(''docs/a.txt'' = [] \<or> hd ''docs/a.txt'' \<noteq> sep) \<and>
            ''..'' \<notin> set (str_split sep ''docs/a.txt'') \<and>
            resolve disk2 ''out'' = Inr [''home'', ''out''] \<and>
            resolve disk2 (join ''out'' ''docs/a.txt'') = Inr [''home'', ''out'', ''docs'', ''a.txt'']"
    using r1 r2 j by (simp add: sep_def)
  have h4: "function_name (write_call ''docs/a.txt'' ''x'') = ''write_file_content'' \<and>
    function_arguments (write_call ''docs/a.txt'' ''x'') =
      Object [(''file_path'', JStr ''docs/a.txt''), (''content'', JStr ''x'')] \<and>
    map_of [(''file_path'', JStr ''docs/a.txt''), (''content'', JStr ''x'')] ''file_path'' =
      Some (JStr ''docs/a.txt'') \<and>
    map_of [(''file_path'', JStr ''docs/a.txt''), (''content'', JStr ''x'')] ''content'' =
      Some (JStr ''x'')"
    by (simp add: write_call_def)
  note abs = dispatched_path_confinement [of "''/etc/passwd''" "''out''" disk2, THEN conjunct1, rule_format, OF h1]
  note all = dispatched_path_confinement [of "''docs/a.txt''" "''out''" disk2 "[''home'', ''out'']"
                    "[''home'', ''out'', ''docs'', ''a.txt'']" "write_call ''docs/a.txt'' ''x''"
                    "[(''file_path'', JStr ''docs/a.txt''), (''content'', JStr ''x'')]" "JStr ''x''"
                    "''in/1_a.js''" "''text''" "[]" "world0\<lparr>file_system := disk2\<rparr>"]
  note pre = all [THEN conjunct2, THEN conjunct2, THEN conjunct1, rule_format, OF h3]
  note dsp = all [THEN conjunct2, THEN conjunct2, THEN conjunct2, rule_format, OF h4]
  show ?thesis using abs pre dsp r1 r2
    by (simp add: j dn md wr write_call_def world0_def)
qed

text \<open>
  Claim C10 as stated fails for a relative path with a component \<^verbatim>\<open>..\<close>: the request to
  write \<^verbatim>\<open>../escape.txt\<close> is relative, and it creates \<^verbatim>\<open>/home/escape.txt\<close>, which is not
  under the output directory \<^verbatim>\<open>/home/out\<close>.
\<close>

theorem relative_path_escapes_output_directory:
  "hd ''../escape.txt'' \<noteq> sep \<and>
   join ''out'' ''../escape.txt'' = ''out/../escape.txt'' \<and>
   resolve disk2 ''out'' = Inr [''home'', ''out''] \<and>
   resolve disk2 (join ''out'' ''../escape.txt'') = Inr [''home'', ''escape.txt''] \<and>
   \<not> prefix [''home'', ''out''] [''home'', ''escape.txt''] \<and>
   dispatch ''in/1_a.js'' ''out'' ''text'' (write_call ''../escape.txt'' ''x'') []
       (world0\<lparr>file_system := disk2\<rparr>) =
     (Inr (), [Tool ''call_1'' ''write_file_content'' ''File written successfully.''],
      world0\<lparr>file_system := disk2\<lparr>nodes := nodes disk2 @ [([''home'', ''escape.txt''], File ''x'')]\<rparr>,
             trace := [Print (Writing ''out/../escape.txt'')]\<rparr>)"
proof -
  have j: "join ''out'' ''../escape.txt'' = ''out/../escape.txt''" by (simp add: join_def sep_def)
  have dn: "dirname ''out/../escape.txt'' = ''out/..''"
    by (simp add: dirname_def upto_last_sep_def rstrip_sep_def sep_def)
  have md: "makedirs ''out/..'' True disk2 = (Inr (), disk2)"
    by (rule makedirs_existing_dir)
       (simp add: isdir_def stat_def resolve_def node_at_def disk2_def sep_def)
  have r1: "resolve disk2 ''out'' = Inr [''home'', ''out'']"
    by (simp add: resolve_def node_at_def disk2_def sep_def)
  have r2: "resolve disk2 ''out/../escape.txt'' = Inr [''home'', ''escape.txt'']"
    by (simp add: resolve_def node_at_def disk2_def sep_def)
  have wr: "write_file_content ''out/../escape.txt'' (JStr ''x'') disk2 =
              (''File written successfully.'',
               disk2\<lparr>nodes := nodes disk2 @ [([''home'', ''escape.txt''], File ''x'')]\<rparr>)"
    by code_simp
  have d: "dispatch ''in/1_a.js'' ''out'' ''text'' (write_call ''../escape.txt'' ''x'') []
       (world0\<lparr>file_system := disk2\<rparr>) =
     (Inr (), [Tool ''call_1'' ''write_file_content'' ''File written successfully.''],
      world0\<lparr>file_system := disk2\<lparr>nodes := nodes disk2 @ [([''home'', ''escape.txt''], File ''x'')]\<rparr>,
             trace := [Print (Writing ''out/../escape.txt'')]\<rparr>)"
    using dispatch_write[of "write_call ''../escape.txt'' ''x''" _ "''../escape.txt''" "JStr ''x''"
            "''in/1_a.js''" "''out''" "''text''" "[]" "world0\<lparr>file_system := disk2\<rparr>"]
    by (simp add: write_call_def j dn md wr world0_def)
  show ?thesis using d r1 r2 j by (simp add: sep_def)
qed


section \<open>Order of processing\<close>

subsection \<open>No part of processing an artifact announces another artifact\<close>












subsection \<open>The listing is sorted by ordinal\<close>

















section \<open>Termination of the Agent Loop\<close>














end
